theory Spec2Isabelle
  imports Main "HOL-Library.Word" "HOL-Library.Product_Lexorder"
begin

unbundle bit_operations_syntax

section \<open>Field data collector: the service layer of \<^verbatim>\<open>app/services.py\<close>\<close>

text \<open>
  The three services of \<^verbatim>\<open>app/services.py\<close> (\<^verbatim>\<open>AuthService\<close>, \<^verbatim>\<open>PhotoService\<close>,
  \<^verbatim>\<open>DataCollectionService\<close>) are embedded as HOL functions over an explicit state: the three
  tables of \<^verbatim>\<open>app/models.py\<close> as lists of rows and the upload directory as an association
  list from paths to contents.  What a call reads from outside (the clock, the random
  tokens, whether a write or a commit fails, the database engine) is an explicit argument.  Python strings are
  \<^typ>\<open>string\<close>, Python integers are \<^typ>\<open>int\<close>.
\<close>

datatype py_error = ValueError | OverflowError | DataError

subsection \<open>The \<^verbatim>\<open>datetime\<close> values the services compute with\<close>

text \<open>
  A naive \<^verbatim>\<open>datetime\<close> is its seven fields; the calendar functions follow the standard
  library's \<^verbatim>\<open>datetime.py\<close> (proleptic Gregorian calendar, 1 January of year 1 is day 1).
\<close>

record datetime =
  year :: int
  month :: int
  day :: int
  hour :: int
  minute :: int
  second :: int
  microsecond :: int

definition MINYEAR :: int where "MINYEAR = 1"
definition MAXYEAR :: int where "MAXYEAR = 9999"
definition MAXORDINAL :: int where "MAXORDINAL = 3652059"

definition DAYS_IN_MONTH :: "int list" where
  "DAYS_IN_MONTH = [-1, 31, 28, 31, 30, 31, 30, 31, 31, 30, 31, 30, 31]"

definition DAYS_BEFORE_MONTH :: "int list" where
  "DAYS_BEFORE_MONTH = [-1, 0, 31, 59, 90, 120, 151, 181, 212, 243, 273, 304, 334]"

definition is_leap :: "int \<Rightarrow> bool" where
  "is_leap y \<longleftrightarrow> y mod 4 = 0 \<and> (y mod 100 \<noteq> 0 \<or> y mod 400 = 0)"

definition days_before_year :: "int \<Rightarrow> int" where
  "days_before_year yr = (let y = yr - 1 in y * 365 + y div 4 - y div 100 + y div 400)"

definition days_in_month :: "int \<Rightarrow> int \<Rightarrow> int" where
  "days_in_month y m = (if m = 2 \<and> is_leap y then 29 else DAYS_IN_MONTH ! nat m)"

definition days_before_month :: "int \<Rightarrow> int \<Rightarrow> int" where
  "days_before_month y m = DAYS_BEFORE_MONTH ! nat m + (if m > 2 \<and> is_leap y then 1 else 0)"

definition ymd2ord :: "int \<Rightarrow> int \<Rightarrow> int \<Rightarrow> int" where
  "ymd2ord y m d = days_before_year y + days_before_month y m + d"

definition DI400Y :: int where "DI400Y = 146097"
definition DI100Y :: int where "DI100Y = 36524"
definition DI4Y :: int where "DI4Y = 1461"

definition ord2ymd :: "int \<Rightarrow> int \<times> int \<times> int" where
  "ord2ymd n0 =
    (let n = n0 - 1;
         n400 = n div DI400Y; n = n mod DI400Y;
         yr = n400 * 400 + 1;
         n100 = n div DI100Y; n = n mod DI100Y;
         n4 = n div DI4Y; n = n mod DI4Y;
         n1 = n div 365; n = n mod 365;
         yr = yr + (n100 * 100 + n4 * 4 + n1)
     in if n1 = 4 \<or> n100 = 4 then (yr - 1, 12, 31)
        else
          let leapyear = (n1 = 3 \<and> (n4 \<noteq> 24 \<or> n100 = 3));
              mth = (n + 50) div 32;
              preceding = DAYS_BEFORE_MONTH ! nat mth + (if mth > 2 \<and> leapyear then 1 else 0)
          in if preceding > n
             then (let mth' = mth - 1;
                       preceding' = preceding
                         - (DAYS_IN_MONTH ! nat mth' + (if mth' = 2 \<and> leapyear then 1 else 0))
                   in (yr, mth', n - preceding' + 1))
             else (yr, mth, n - preceding + 1))"

text \<open>The range checks of the constructor (\<^verbatim>\<open>_check_date_fields\<close>, \<^verbatim>\<open>_check_time_fields\<close>).\<close>

definition check_date_fields :: "int \<Rightarrow> int \<Rightarrow> int \<Rightarrow> bool" where
  "check_date_fields y m d \<longleftrightarrow>
     MINYEAR \<le> y \<and> y \<le> MAXYEAR \<and> 1 \<le> m \<and> m \<le> 12 \<and> 1 \<le> d \<and> d \<le> days_in_month y m"

definition check_time_fields :: "int \<Rightarrow> int \<Rightarrow> int \<Rightarrow> int \<Rightarrow> bool" where
  "check_time_fields h mi s us \<longleftrightarrow>
     0 \<le> h \<and> h \<le> 23 \<and> 0 \<le> mi \<and> mi \<le> 59 \<and> 0 \<le> s \<and> s \<le> 59 \<and> 0 \<le> us \<and> us \<le> 999999"

text \<open>Every \<^verbatim>\<open>datetime\<close> object that exists has passed both checks.\<close>

definition valid_datetime :: "datetime \<Rightarrow> bool" where
  "valid_datetime t \<longleftrightarrow>
     check_date_fields (year t) (month t) (day t) \<and>
     check_time_fields (hour t) (minute t) (second t) (microsecond t)"

text \<open>\<^verbatim>\<open>datetime(y, m, d)\<close>: midnight of that day, or \<^verbatim>\<open>ValueError\<close>.\<close>

definition datetime_new :: "int \<Rightarrow> int \<Rightarrow> int \<Rightarrow> py_error + datetime" where
  "datetime_new y m d =
     (if check_date_fields y m d
      then Inr \<lparr>year = y, month = m, day = d, hour = 0, minute = 0, second = 0, microsecond = 0\<rparr>
      else Inl ValueError)"

definition toordinal :: "datetime \<Rightarrow> int" where
  "toordinal t = ymd2ord (year t) (month t) (day t)"

text \<open>\<^verbatim>\<open>weekday()\<close>: Monday is 0, Sunday is 6.\<close>

definition weekday :: "datetime \<Rightarrow> int" where
  "weekday t = (toordinal t + 6) mod 7"

text \<open>
  \<^verbatim>\<open>t - timedelta(days=k)\<close>, as \<^verbatim>\<open>datetime.__add__\<close> computes it: the day number moves by
  \<open>k\<close>, the time of day is rebuilt from the seconds of the day, the microseconds are kept;
  \<^verbatim>\<open>OverflowError\<close> when the day leaves the calendar.
\<close>

definition sub_days :: "datetime \<Rightarrow> int \<Rightarrow> py_error + datetime" where
  "sub_days t k =
     (let days = toordinal t - k;
          secs = hour t * 3600 + minute t * 60 + second t;
          hh = secs div 3600; rem = secs mod 3600;
          mm = rem div 60; ss = rem mod 60
      in if 0 < days \<and> days \<le> MAXORDINAL
         then (case ord2ymd days of (y, m, d) \<Rightarrow>
                 Inr \<lparr>year = y, month = m, day = d, hour = hh, minute = mm, second = ss,
                      microsecond = microsecond t\<rparr>)
         else Inl OverflowError)"

text \<open>Comparison of naive datetimes is the comparison of the tuples of their fields.\<close>

definition dt_key :: "datetime \<Rightarrow> int \<times> int \<times> int \<times> int \<times> int \<times> int \<times> int" where
  "dt_key t = (year t, month t, day t, hour t, minute t, second t, microsecond t)"

definition dt_ge :: "datetime \<Rightarrow> datetime \<Rightarrow> bool" where
  "dt_ge a b \<longleftrightarrow> dt_key b \<le> dt_key a"

definition dt_gt :: "datetime \<Rightarrow> datetime \<Rightarrow> bool" where
  "dt_gt a b \<longleftrightarrow> dt_key b < dt_key a"

text \<open>
  \<^verbatim>\<open>isoformat()\<close>: \<^verbatim>\<open>%04d-%02d-%02dT%02d:%02d:%02d\<close>, then \<^verbatim>\<open>.%06d\<close> when the microseconds
  are not zero.  \<open>zpad w n\<close> writes the last \<open>w\<close> decimal digits of \<open>n\<close>; the fields of a
  valid datetime never have more digits than their width.
\<close>

definition digit_char :: "nat \<Rightarrow> char" where
  "digit_char d = ''0123456789'' ! (d mod 10)"

primrec zpad :: "nat \<Rightarrow> nat \<Rightarrow> string" where
  "zpad 0 n = []"
| "zpad (Suc w) n = zpad w (n div 10) @ [digit_char (n mod 10)]"

definition format_time :: "int \<Rightarrow> int \<Rightarrow> int \<Rightarrow> int \<Rightarrow> string" where
  "format_time hh mm ss us =
     zpad 2 (nat hh) @ '':'' @ zpad 2 (nat mm) @ '':'' @ zpad 2 (nat ss) @
     (if us \<noteq> 0 then ''.'' @ zpad 6 (nat us) else [])"

definition isoformat :: "datetime \<Rightarrow> string" where
  "isoformat t =
     zpad 4 (nat (year t)) @ ''-'' @ zpad 2 (nat (month t)) @ ''-'' @ zpad 2 (nat (day t)) @ ''T'' @
     format_time (hour t) (minute t) (second t) (microsecond t)"

subsection \<open>SHA-256, as \<^verbatim>\<open>hashlib.sha256(data).hexdigest()\<close> computes it\<close>

text \<open>
  The digest of FIPS 180-4 over the bytes of the string, written as 64 lower-case
  hexadecimal digits.
\<close>

type_synonym w32 = "32 word"

definition rotr :: "nat \<Rightarrow> w32 \<Rightarrow> w32" where
  "rotr n x = or (drop_bit n x) (push_bit (32 - n) x)"

definition ch :: "w32 \<Rightarrow> w32 \<Rightarrow> w32 \<Rightarrow> w32" where
  "ch x y z = xor (and x y) (and (not x) z)"
definition maj :: "w32 \<Rightarrow> w32 \<Rightarrow> w32 \<Rightarrow> w32" where
  "maj x y z = xor (xor (and x y) (and x z)) (and y z)"
definition bsig0 :: "w32 \<Rightarrow> w32" where
  "bsig0 x = xor (xor (rotr 2 x) (rotr 13 x)) (rotr 22 x)"
definition bsig1 :: "w32 \<Rightarrow> w32" where
  "bsig1 x = xor (xor (rotr 6 x) (rotr 11 x)) (rotr 25 x)"
definition ssig0 :: "w32 \<Rightarrow> w32" where
  "ssig0 x = xor (xor (rotr 7 x) (rotr 18 x)) (drop_bit 3 x)"
definition ssig1 :: "w32 \<Rightarrow> w32" where
  "ssig1 x = xor (xor (rotr 17 x) (rotr 19 x)) (drop_bit 10 x)"

text \<open>
  The round constants (from the cube roots of the first 64 primes) and the initial hash
  value (from the square roots of the first 8 primes), in decimal.
\<close>

definition sha256_K :: "w32 list" where
  "sha256_K = [
     1116352408, 1899447441, 3049323471, 3921009573, 961987163, 1508970993,
     2453635748, 2870763221, 3624381080, 310598401, 607225278, 1426881987,
     1925078388, 2162078206, 2614888103, 3248222580, 3835390401, 4022224774,
     264347078, 604807628, 770255983, 1249150122, 1555081692, 1996064986,
     2554220882, 2821834349, 2952996808, 3210313671, 3336571891, 3584528711,
     113926993, 338241895, 666307205, 773529912, 1294757372, 1396182291,
     1695183700, 1986661051, 2177026350, 2456956037, 2730485921, 2820302411,
     3259730800, 3345764771, 3516065817, 3600352804, 4094571909, 275423344,
     430227734, 506948616, 659060556, 883997877, 958139571, 1322822218,
     1537002063, 1747873779, 1955562222, 2024104815, 2227730452, 2361852424,
     2428436474, 2756734187, 3204031479, 3329325298]"

definition sha256_H0 :: "w32 list" where
  "sha256_H0 = [
     1779033703, 3144134277, 1013904242, 2773480762,
     1359893119, 2600822924, 528734635, 1541459225]"

definition length_bytes :: "nat \<Rightarrow> 8 word list" where
  "length_bytes n = map (\<lambda>i. ucast (drop_bit (8 * (7 - i)) (word_of_nat n :: 64 word))) [0..<8]"

definition sha256_pad :: "8 word list \<Rightarrow> 8 word list" where
  "sha256_pad msg =
     msg @ [0x80] @ replicate ((119 - length msg mod 64) mod 64) 0 @ length_bytes (8 * length msg)"

fun be_words :: "8 word list \<Rightarrow> w32 list" where
  "be_words (a # b # c # d # bs) =
     (or (push_bit 24 (ucast a)) (or (push_bit 16 (ucast b)) (or (push_bit 8 (ucast c)) (ucast d))))
     # be_words bs"
| "be_words _ = []"

primrec extend :: "nat \<Rightarrow> w32 list \<Rightarrow> w32 list" where
  "extend 0 w = w"
| "extend (Suc n) w =
     extend n (w @ [ssig1 (w ! (length w - 2)) + w ! (length w - 7)
                    + ssig0 (w ! (length w - 15)) + w ! (length w - 16)])"

text \<open>One round on the eight working variables.\<close>

fun sha256_round :: "w32 \<times> w32 \<Rightarrow> w32 list \<Rightarrow> w32 list" where
  "sha256_round (k, w) [a, b, c, d, e, f, g, h] =
     (let t1 = h + bsig1 e + ch e f g + k + w;
          t2 = bsig0 a + maj a b c
      in [t1 + t2, a, b, c, d + t1, e, f, g])"
| "sha256_round _ s = s"

definition sha256_compress :: "w32 list \<Rightarrow> w32 list \<Rightarrow> w32 list" where
  "sha256_compress block hs =
     map (\<lambda>(x, y). x + y) (zip hs (fold sha256_round (zip sha256_K (extend 48 block)) hs))"

fun chunks16 :: "w32 list \<Rightarrow> w32 list list" where
  "chunks16 [] = []"
| "chunks16 ws = take 16 ws # chunks16 (drop 16 ws)"

definition hex_char :: "nat \<Rightarrow> char" where
  "hex_char d = ''0123456789abcdef'' ! (d mod 16)"

definition hex_word :: "w32 \<Rightarrow> string" where
  "hex_word x = map (\<lambda>i. hex_char (unat (drop_bit (4 * (7 - i)) x) mod 16)) [0..<8]"

definition sha256_hexdigest :: "string \<Rightarrow> string" where
  "sha256_hexdigest s =
     concat (map hex_word
       (fold sha256_compress (chunks16 (be_words (sha256_pad (map of_char s)))) sha256_H0))"

subsection \<open>Strings and paths\<close>

text \<open>\<^verbatim>\<open>s.split(sep)\<close> for a one-character separator: every occurrence splits.\<close>

fun split_chr :: "char \<Rightarrow> string \<Rightarrow> string list" where
  "split_chr c [] = [[]]"
| "split_chr c (x # xs) =
     (if x = c then [] # split_chr c xs
      else (case split_chr c xs of [] \<Rightarrow> [[x]] | w # ws \<Rightarrow> (x # w) # ws))"

text \<open>
  \<^verbatim>\<open>salt, hash_value = parts\<close>: unpacking a list that does not have exactly two elements
  raises \<^verbatim>\<open>ValueError\<close>.
\<close>

fun unpack2 :: "string list \<Rightarrow> py_error + string \<times> string" where
  "unpack2 [a, b] = Inr (a, b)"
| "unpack2 _ = Inl ValueError"

text \<open>\<^verbatim>\<open>str.lower()\<close> on the letters that matter to the allow-list (ASCII).\<close>

definition lower_char :: "char \<Rightarrow> char" where
  "lower_char c =
     (case map_of (zip ''ABCDEFGHIJKLMNOPQRSTUVWXYZ'' ''abcdefghijklmnopqrstuvwxyz'') c of
        None \<Rightarrow> c | Some d \<Rightarrow> d)"

definition lower :: "string \<Rightarrow> string" where
  "lower s = map lower_char s"

text \<open>\<^verbatim>\<open>s.rfind(c)\<close>: the last index of \<open>c\<close>, or \<open>-1\<close>.\<close>

definition rfind :: "char \<Rightarrow> string \<Rightarrow> int" where
  "rfind c s = (case filter (\<lambda>i. s ! i = c) (rev [0..<length s]) of [] \<Rightarrow> -1 | i # _ \<Rightarrow> int i)"

text \<open>
  \<^verbatim>\<open>Path(p).name\<close> on a POSIX path: the last component that is neither empty nor
  \<^verbatim>\<open>.\<close>, or the empty string.
\<close>

definition path_name :: "string \<Rightarrow> string" where
  "path_name p =
     (case filter (\<lambda>x. x \<noteq> [] \<and> x \<noteq> ''.'') (split_chr CHR ''/'' p) of
        [] \<Rightarrow> [] | q # qs \<Rightarrow> last (q # qs))"

text \<open>\<^verbatim>\<open>Path(p).suffix\<close>.\<close>

definition suffix :: "string \<Rightarrow> string" where
  "suffix p =
     (let name = path_name p; i = rfind CHR ''.'' name
      in if 0 < i \<and> i < int (length name) - 1 then drop (nat i) name else [])"

subsection \<open>The tables of \<^verbatim>\<open>app/models.py\<close>\<close>

type_synonym json = "(string \<times> string) list"
type_synonym bytes = "8 word list"

record user =
  u_id :: "int option"
  username :: string
  password_hash :: string
  full_name :: string
  email :: "string option"
  is_active :: bool
  created_at :: datetime
  last_login :: "datetime option"

record photo =
  p_id :: "int option"
  filename :: string
  original_filename :: string
  file_path :: string
  file_size :: int
  mime_type :: string
  uploaded_at :: datetime
  photo_metadata :: json

record data_collection =
  c_id :: "int option"
  customer_name :: string
  description :: string
  submission_date :: datetime
  user_id :: int
  photo_id :: "int option"
  location_data :: "json option"
  device_info :: "json option"
  is_synchronized :: bool
  sync_error :: "string option"

record user_create =
  uc_username :: string
  uc_password :: string
  uc_full_name :: string
  uc_email :: "string option"

record user_login =
  ul_username :: string
  ul_password :: string

record data_collection_create =
  cc_customer_name :: string
  cc_description :: string
  cc_photo_id :: "int option"
  cc_location_data :: "json option"
  cc_device_info :: "json option"

record dashboard_stats =
  total_collections :: int
  collections_today :: int
  collections_this_week :: int
  collections_this_month :: int
  pending_sync :: int
  last_submission :: "string option"

text \<open>The persistent state: the three tables and the files of the upload directory.\<close>

record store =
  users :: "user list"
  photos :: "photo list"
  data_collections :: "data_collection list"
  files :: "(string \<times> bytes) list"

subsection \<open>The storage session\<close>

text \<open>
  Modelled from the spec: \<^verbatim>\<open>app/database.py\<close> (\<^verbatim>\<open>get_session\<close>) is not among the sources.
  The spec assumes a relational store with the tables \<^verbatim>\<open>users\<close>, \<^verbatim>\<open>photos\<close> and
  \<^verbatim>\<open>data_collections\<close>, each row with an integer identity assigned on insertion.  A table is
  the list of its rows in insertion order; a new row gets an identity above every identity
  in the table; \<^verbatim>\<open>session.get\<close> and \<^verbatim>\<open>.first()\<close> return the first matching row.
\<close>

definition fresh_id :: "int option list \<Rightarrow> int" where
  "fresh_id ids = foldr max (map (\<lambda>i. case i of None \<Rightarrow> 0 | Some k \<Rightarrow> k) ids) 0 + 1"

definition first_user_by_username :: "store \<Rightarrow> string \<Rightarrow> user option" where
  "first_user_by_username s name = find (\<lambda>u. username u = name) (users s)"

definition get_user :: "store \<Rightarrow> int option \<Rightarrow> user option" where
  "get_user s i = find (\<lambda>u. u_id u = i) (users s)"

definition get_photo :: "store \<Rightarrow> int option \<Rightarrow> photo option" where
  "get_photo s i = find (\<lambda>p. p_id p = i) (photos s)"

definition get_collection :: "store \<Rightarrow> int option \<Rightarrow> data_collection option" where
  "get_collection s i = find (\<lambda>c. c_id c = i) (data_collections s)"

text \<open>\<^verbatim>\<open>session.add\<close> and \<^verbatim>\<open>session.commit\<close> of a new object: the row is appended with its identity.\<close>

definition insert_user :: "user \<Rightarrow> store \<Rightarrow> int \<times> store" where
  "insert_user u s =
     (let i = fresh_id (map u_id (users s))
      in (i, s\<lparr>users := users s @ [u\<lparr>u_id := Some i\<rparr>]\<rparr>))"

definition insert_photo :: "photo \<Rightarrow> store \<Rightarrow> int \<times> store" where
  "insert_photo p s =
     (let i = fresh_id (map p_id (photos s))
      in (i, s\<lparr>photos := photos s @ [p\<lparr>p_id := Some i\<rparr>]\<rparr>))"

definition insert_collection :: "data_collection \<Rightarrow> store \<Rightarrow> int \<times> store" where
  "insert_collection c s =
     (let i = fresh_id (map c_id (data_collections s))
      in (i, s\<lparr>data_collections := data_collections s @ [c\<lparr>c_id := Some i\<rparr>]\<rparr>))"

text \<open>\<^verbatim>\<open>session.add\<close> and \<^verbatim>\<open>session.commit\<close> of a loaded object: its row is rewritten.\<close>

definition update_user :: "user \<Rightarrow> store \<Rightarrow> store" where
  "update_user u s = s\<lparr>users := map (\<lambda>r. if u_id r = u_id u then u else r) (users s)\<rparr>"

text \<open>\<^verbatim>\<open>ORDER BY submission_date DESC\<close>, rows with equal dates in table order.\<close>

fun insert_desc :: "data_collection \<Rightarrow> data_collection list \<Rightarrow> data_collection list" where
  "insert_desc c [] = [c]"
| "insert_desc c (x # xs) =
     (if dt_gt (submission_date c) (submission_date x) then c # x # xs else x # insert_desc c xs)"

definition order_by_desc :: "data_collection list \<Rightarrow> data_collection list" where
  "order_by_desc cs = foldl (\<lambda>acc c. insert_desc c acc) [] cs"

text \<open>
  Modelled from the spec: which database engine \<^verbatim>\<open>app/database.py\<close> connects to is not among
  the sources, and the engines differ on a negative \<^verbatim>\<open>LIMIT\<close>, so the engine is an argument.
  \<^verbatim>\<open>LIMIT n\<close> with \<open>n \<ge> 0\<close> gives the first \<open>n\<close> rows on both.  With \<open>n < 0\<close> SQLite
  puts no bound on the rows, and PostgreSQL rejects the statement, which reaches the caller
  as an exception.
\<close>

datatype engine = SQLite | PostgreSQL

definition sql_limit :: "engine \<Rightarrow> int \<Rightarrow> 'a list \<Rightarrow> py_error + 'a list" where
  "sql_limit e n rows =
     (if 0 \<le> n then Inr (take (nat n) rows)
      else (case e of SQLite \<Rightarrow> Inr rows | PostgreSQL \<Rightarrow> Inl DataError))"

text \<open>The files of the upload directory: \<^verbatim>\<open>write_bytes\<close>, \<^verbatim>\<open>exists\<close>, \<^verbatim>\<open>unlink\<close>.\<close>

definition file_exists :: "string \<Rightarrow> store \<Rightarrow> bool" where
  "file_exists p s \<longleftrightarrow> map_of (files s) p \<noteq> None"

definition unlink :: "string \<Rightarrow> store \<Rightarrow> store" where
  "unlink p s = s\<lparr>files := filter (\<lambda>e. fst e \<noteq> p) (files s)\<rparr>"

definition write_bytes :: "string \<Rightarrow> bytes \<Rightarrow> store \<Rightarrow> store" where
  "write_bytes p b s = s\<lparr>files := (p, b) # filter (\<lambda>e. fst e \<noteq> p) (files s)\<rparr>"

subsection \<open>\<^verbatim>\<open>AuthService\<close>\<close>

text \<open>
  \<^verbatim>\<open>secrets.token_hex(n)\<close> returns \<open>2 * n\<close> lower-case hexadecimal digits; the value drawn is
  an argument of the functions that draw one.
\<close>

definition is_token_hex :: "nat \<Rightarrow> string \<Rightarrow> bool" where
  "is_token_hex n s \<longleftrightarrow> length s = 2 * n \<and> list_all (\<lambda>c. c \<in> set ''0123456789abcdef'') s"

text \<open>\<^verbatim>\<open>hash_password\<close>, with the salt that \<^verbatim>\<open>secrets.token_hex(16)\<close> returned.\<close>

definition hash_password :: "string \<Rightarrow> string \<Rightarrow> string" where
  "hash_password salt password = salt @ ''$'' @ sha256_hexdigest (password @ salt)"

text \<open>
  \<^verbatim>\<open>verify_password\<close>: the \<^verbatim>\<open>ValueError\<close> of the unpacking is caught and answered with
  \<^verbatim>\<open>False\<close>.
\<close>

definition verify_password :: "string \<Rightarrow> string \<Rightarrow> bool" where
  "verify_password password pw_hash =
     (case unpack2 (split_chr CHR ''$'' pw_hash) of
        Inl e \<Rightarrow> False
      | Inr (salt, hash_value) \<Rightarrow> sha256_hexdigest (password @ salt) = hash_value)"

text \<open>
  \<^verbatim>\<open>create_user\<close>; \<open>salt\<close> is the token drawn by \<^verbatim>\<open>hash_password\<close>, \<open>now\<close> the clock read
  by the default of \<^verbatim>\<open>created_at\<close>.  \<^verbatim>\<open>session.refresh\<close> reads the row back by its identity.
\<close>

definition create_user :: "string \<Rightarrow> datetime \<Rightarrow> store \<Rightarrow> user_create \<Rightarrow> user option \<times> store" where
  "create_user salt now s uc =
     (case first_user_by_username s (uc_username uc) of
        Some existing_user \<Rightarrow> (None, s)
      | None \<Rightarrow>
          (let u = \<lparr>u_id = None, username = uc_username uc,
                    password_hash = hash_password salt (uc_password uc),
                    full_name = uc_full_name uc, email = uc_email uc,
                    is_active = True, created_at = now, last_login = None\<rparr>;
               (i, s') = insert_user u s
           in (get_user s' (Some i), s')))"

text \<open>\<^verbatim>\<open>authenticate_user\<close>; \<open>now\<close> is the clock read for \<^verbatim>\<open>last_login\<close>.\<close>

definition authenticate_user :: "datetime \<Rightarrow> store \<Rightarrow> user_login \<Rightarrow> user option \<times> store" where
  "authenticate_user now s login_data =
     (case first_user_by_username s (ul_username login_data) of
        None \<Rightarrow> (None, s)
      | Some u \<Rightarrow>
          if \<not> is_active u then (None, s)
          else if \<not> verify_password (ul_password login_data) (password_hash u) then (None, s)
          else (let u' = u\<lparr>last_login := Some now\<rparr>;
                    s' = update_user u' s
                in (get_user s' (u_id u'), s')))"

definition get_user_by_id :: "store \<Rightarrow> int \<Rightarrow> user option" where
  "get_user_by_id s i = get_user s (Some i)"

subsection \<open>\<^verbatim>\<open>PhotoService\<close>\<close>

definition UPLOAD_DIR :: string where
  "UPLOAD_DIR = ''uploads/photos''"

definition ALLOWED_EXTENSIONS :: "string list" where
  "ALLOWED_EXTENSIONS = [''.jpg'', ''.jpeg'', ''.png'', ''.gif'', ''.webp'']"

definition MAX_FILE_SIZE :: int where
  "MAX_FILE_SIZE = 10 * 1024 * 1024"

text \<open>
  \<^verbatim>\<open>generate_unique_filename\<close>: \<^verbatim>\<open>strftime("%Y%m%d_%H%M%S")\<close> of the clock (written here for
  years of four digits), the token of \<^verbatim>\<open>secrets.token_hex(8)\<close>, the lower-cased suffix.
\<close>

definition strftime_stamp :: "datetime \<Rightarrow> string" where
  "strftime_stamp t =
     zpad 4 (nat (year t)) @ zpad 2 (nat (month t)) @ zpad 2 (nat (day t)) @ ''_'' @
     zpad 2 (nat (hour t)) @ zpad 2 (nat (minute t)) @ zpad 2 (nat (second t))"

definition generate_unique_filename :: "datetime \<Rightarrow> string \<Rightarrow> string \<Rightarrow> string" where
  "generate_unique_filename now unique_id original =
     strftime_stamp now @ ''_'' @ unique_id @ lower (suffix original)"

definition is_allowed_file :: "string \<Rightarrow> bool" where
  "is_allowed_file fname \<longleftrightarrow> lower (suffix fname) \<in> set ALLOWED_EXTENSIONS"

text \<open>
  What \<^verbatim>\<open>save_photo\<close> meets outside: the two clock readings (file name, \<^verbatim>\<open>uploaded_at\<close>), the
  random token, how \<^verbatim>\<open>write_bytes\<close> ends (the file written; an exception before the file
  was opened; an exception after part of the content was written) and whether the
  database raises on the commit.
\<close>

datatype write_result = Write_ok | Open_failed | Write_failed bytes

record save_env =
  name_clock :: datetime
  token :: string
  row_clock :: datetime
  write_outcome :: write_result
  commit_fails :: bool

text \<open>The handler of \<^verbatim>\<open>except Exception\<close>: the file is removed when it exists.\<close>

definition cleanup :: "string \<Rightarrow> store \<Rightarrow> store" where
  "cleanup p s = (if file_exists p s then unlink p s else s)"

text \<open>
  \<^verbatim>\<open>save_photo\<close>.  The directories are not part of the state (\<^verbatim>\<open>setup_upload_directory\<close>
  changes no file), and the log entry and the notification of the handler change
  neither table nor file.
\<close>

definition save_photo ::
  "save_env \<Rightarrow> store \<Rightarrow> bytes \<Rightarrow> string \<Rightarrow> string \<Rightarrow> photo option \<times> store" where
  "save_photo env s file_content original mime =
     (if \<not> is_allowed_file original then (None, s)
      else if int (length file_content) > MAX_FILE_SIZE then (None, s)
      else
        (let fname = generate_unique_filename (name_clock env) (token env) original;
             fpath = UPLOAD_DIR @ ''/'' @ fname
         in case write_outcome env of
              Open_failed \<Rightarrow> (None, cleanup fpath s)
            | Write_failed part \<Rightarrow> (None, cleanup fpath (write_bytes fpath part s))
            | Write_ok \<Rightarrow>
                (let s1 = write_bytes fpath file_content s
                 in if commit_fails env then (None, cleanup fpath s1)
                    else
                      (let p = \<lparr>p_id = None, filename = fname, original_filename = original,
                                file_path = fpath, file_size = int (length file_content),
                                mime_type = mime, uploaded_at = row_clock env,
                                photo_metadata = []\<rparr>;
                           (i, s2) = insert_photo p s1
                       in (get_photo s2 (Some i), s2)))))"

definition get_photo_by_id :: "store \<Rightarrow> int \<Rightarrow> photo option" where
  "get_photo_by_id s i = get_photo s (Some i)"

subsection \<open>\<^verbatim>\<open>DataCollectionService\<close>\<close>

text \<open>\<^verbatim>\<open>create_collection\<close>; \<open>now\<close> is the clock read by the default of \<^verbatim>\<open>submission_date\<close>.\<close>

definition create_collection ::
  "datetime \<Rightarrow> store \<Rightarrow> int \<Rightarrow> data_collection_create \<Rightarrow> data_collection option \<times> store" where
  "create_collection now s uid cc =
     (case get_user s (Some uid) of
        None \<Rightarrow> (None, s)
      | Some u \<Rightarrow>
          if cc_photo_id cc \<noteq> None \<and> get_photo s (cc_photo_id cc) = None then (None, s)
          else
            (let c = \<lparr>c_id = None, customer_name = cc_customer_name cc,
                      description = cc_description cc, submission_date = now,
                      user_id = uid, photo_id = cc_photo_id cc,
                      location_data = cc_location_data cc, device_info = cc_device_info cc,
                      is_synchronized = False, sync_error = None\<rparr>;
                 (i, s') = insert_collection c s
             in (get_collection s' (Some i), s')))"

definition get_collections_by_user ::
  "engine \<Rightarrow> store \<Rightarrow> int \<Rightarrow> int \<Rightarrow> py_error + data_collection list" where
  "get_collections_by_user e s uid limit =
     sql_limit e limit (order_by_desc (filter (\<lambda>c. user_id c = uid) (data_collections s)))"

definition get_collection_by_id :: "store \<Rightarrow> int \<Rightarrow> data_collection option" where
  "get_collection_by_id s i = get_collection s (Some i)"

text \<open>
  \<^verbatim>\<open>max(rows, key=lambda c: c.submission_date)\<close>: the first row with the greatest date.
\<close>

definition max_by_date :: "data_collection \<Rightarrow> data_collection list \<Rightarrow> data_collection" where
  "max_by_date c cs =
     foldl (\<lambda>best x. if dt_gt (submission_date x) (submission_date best) then x else best) c cs"

text \<open>The three window starts of \<^verbatim>\<open>get_dashboard_stats\<close>, as the source computes them.\<close>

definition today_start :: "datetime \<Rightarrow> py_error + datetime" where
  "today_start now = datetime_new (year now) (month now) (day now)"

definition week_start :: "datetime \<Rightarrow> py_error + datetime" where
  "week_start now = sub_days now (weekday now)"

definition month_start :: "datetime \<Rightarrow> py_error + datetime" where
  "month_start now = datetime_new (year now) (month now) 1"

definition get_dashboard_stats :: "datetime \<Rightarrow> store \<Rightarrow> int \<Rightarrow> py_error + dashboard_stats" where
  "get_dashboard_stats now s uid =
     (case today_start now of Inl e \<Rightarrow> Inl e | Inr t_start \<Rightarrow>
      case week_start now of Inl e \<Rightarrow> Inl e | Inr w_start \<Rightarrow>
      case month_start now of Inl e \<Rightarrow> Inl e | Inr m_start \<Rightarrow>
        (let total = filter (\<lambda>c. user_id c = uid) (data_collections s);
             today = filter (\<lambda>c. dt_ge (submission_date c) t_start) total;
             this_week = filter (\<lambda>c. dt_ge (submission_date c) w_start) total;
             this_month = filter (\<lambda>c. dt_ge (submission_date c) m_start) total;
             pending = filter (\<lambda>c. \<not> is_synchronized c) total;
             last = (case total of [] \<Rightarrow> None
                     | c # cs \<Rightarrow> Some (isoformat (submission_date (max_by_date c cs))))
         in Inr \<lparr>total_collections = int (length total),
                 collections_today = int (length today),
                 collections_this_week = int (length this_week),
                 collections_this_month = int (length this_month),
                 pending_sync = int (length pending),
                 last_submission = last\<rparr>))"

subsection \<open>Example states\<close>

text \<open>
  Monday 8 January 2024 at noon, a visit recorded at eight o'clock that morning and one
  recorded the Friday before.
\<close>

definition monday_noon :: datetime where
  "monday_noon = \<lparr>year = 2024, month = 1, day = 8, hour = 12, minute = 0, second = 0,
                   microsecond = 0\<rparr>"

definition monday_morning :: datetime where
  "monday_morning = \<lparr>year = 2024, month = 1, day = 8, hour = 8, minute = 0, second = 0,
                      microsecond = 0\<rparr>"

definition monday_midnight :: datetime where
  "monday_midnight = \<lparr>year = 2024, month = 1, day = 8, hour = 0, minute = 0, second = 0,
                       microsecond = 0\<rparr>"

definition january_first :: datetime where
  "january_first = \<lparr>year = 2024, month = 1, day = 1, hour = 0, minute = 0, second = 0,
                     microsecond = 0\<rparr>"

definition friday_evening :: datetime where
  "friday_evening = \<lparr>year = 2024, month = 1, day = 5, hour = 17, minute = 30, second = 0,
                      microsecond = 0\<rparr>"

definition demo_salt :: string where
  "demo_salt = ''000102030405060708090a0b0c0d0e0f''"

definition other_salt :: string where
  "other_salt = ''ffeeddccbbaa99887766554433221100''"

definition demo_user :: user where
  "demo_user = \<lparr>u_id = Some 1, username = ''demo'',
                 password_hash = hash_password demo_salt ''demo123'',
                 full_name = ''Demo User'', email = Some ''demo@example.com'',
                 is_active = True, created_at = january_first, last_login = None\<rparr>"

definition retired_user :: user where
  "retired_user = \<lparr>u_id = Some 2, username = ''retired'',
                    password_hash = hash_password other_salt ''field123'',
                    full_name = ''Field Worker'', email = None,
                    is_active = False, created_at = january_first, last_login = None\<rparr>"

definition broken_user :: user where
  "broken_user = \<lparr>u_id = Some 3, username = ''broken'', password_hash = ''malformed'',
                   full_name = ''Field Supervisor'', email = None,
                   is_active = True, created_at = january_first, last_login = None\<rparr>"

definition demo_photo :: photo where
  "demo_photo = \<lparr>p_id = Some 1, filename = ''20240105_173000_0011223344556677.jpg'',
                  original_filename = ''shop.JPG'',
                  file_path = ''uploads/photos/20240105_173000_0011223344556677.jpg'',
                  file_size = 3, mime_type = ''image/jpeg'', uploaded_at = friday_evening,
                  photo_metadata = []\<rparr>"

definition morning_visit :: data_collection where
  "morning_visit = \<lparr>c_id = Some 1, customer_name = ''Customer 0'', description = ''Description 0'',
                     submission_date = monday_morning, user_id = 1, photo_id = None,
                     location_data = None, device_info = None,
                     is_synchronized = False, sync_error = None\<rparr>"

definition friday_visit :: data_collection where
  "friday_visit = \<lparr>c_id = Some 2, customer_name = ''Customer 1'', description = ''Description 1'',
                    submission_date = friday_evening, user_id = 1, photo_id = Some 1,
                    location_data = None, device_info = None,
                    is_synchronized = True, sync_error = None\<rparr>"

definition colleague_visit :: data_collection where
  "colleague_visit = \<lparr>c_id = Some 3, customer_name = ''Customer 2'', description = ''Description 2'',
                       submission_date = monday_morning, user_id = 3, photo_id = None,
                       location_data = None, device_info = None,
                       is_synchronized = False, sync_error = None\<rparr>"

definition demo_store :: store where
  "demo_store = \<lparr>users = [demo_user, retired_user, broken_user], photos = [demo_photo],
                  data_collections = [friday_visit, colleague_visit, morning_visit],
                  files = [(''uploads/photos/20240105_173000_0011223344556677.jpg'', [1, 2, 3])]\<rparr>"

definition demo_env :: save_env where
  "demo_env = \<lparr>name_clock = monday_noon, token = ''8899aabbccddeeff'',
                row_clock = monday_noon, write_outcome = Write_ok, commit_fails = True\<rparr>"

definition duplicate_signup :: user_create where
  "duplicate_signup = \<lparr>uc_username = ''demo'', uc_password = ''another'',
                        uc_full_name = ''Second Demo'', uc_email = None\<rparr>"

definition new_signup :: user_create where
  "new_signup = \<lparr>uc_username = ''fieldworker'', uc_password = ''field123'',
                  uc_full_name = ''Field Worker'', uc_email = Some ''fieldworker@example.com''\<rparr>"

definition plain_visit :: data_collection_create where
  "plain_visit = \<lparr>cc_customer_name = ''John Doe'', cc_description = ''Test customer visit'',
                   cc_photo_id = None, cc_location_data = None, cc_device_info = None\<rparr>"

definition lost_photo_visit :: data_collection_create where
  "lost_photo_visit = \<lparr>cc_customer_name = ''John Doe'', cc_description = ''Test'',
                        cc_photo_id = Some 99999, cc_location_data = None, cc_device_info = None\<rparr>"

definition ghost_login :: user_login where
  "ghost_login = \<lparr>ul_username = ''nonexistent'', ul_password = ''test123''\<rparr>"

definition retired_login :: user_login where
  "retired_login = \<lparr>ul_username = ''retired'', ul_password = ''field123''\<rparr>"

definition broken_login :: user_login where
  "broken_login = \<lparr>ul_username = ''broken'', ul_password = ''super123''\<rparr>"

definition demo_login :: user_login where
  "demo_login = \<lparr>ul_username = ''demo'', ul_password = ''demo123''\<rparr>"

subsection \<open>The week start in the words of the specification\<close>

text \<open>
  ``Week-start (most recent Monday midnight)'': midnight of the current day, moved back by
  the number of days since Monday.  Stated beside \<open>week_start\<close>, which follows the source.
\<close>

definition spec_week_start :: "datetime \<Rightarrow> py_error + datetime" where
  "spec_week_start now =
     (case today_start now of Inl e \<Rightarrow> Inl e | Inr t \<Rightarrow> sub_days t (weekday now))"

section \<open>Properties\<close>

subsection \<open>Password hashing\<close>

lemma hex_char_in: "hex_char d \<in> set ''0123456789abcdef''"
  unfolding hex_char_def by (rule nth_mem) simp

lemma hex_char_not_dollar: "hex_char d \<noteq> CHR ''$''"
proof
  assume e: "hex_char d = CHR ''$''"
  have "hex_char d \<in> set ''0123456789abcdef''" by (rule hex_char_in)
  then have "CHR ''$'' \<in> set ''0123456789abcdef''" by (simp only: e)
  then show False by simp
qed

lemma hex_word_no_dollar: "CHR ''$'' \<notin> set (hex_word x)"
proof
  assume "CHR ''$'' \<in> set (hex_word x)"
  then obtain i where "CHR ''$'' = hex_char (unat (drop_bit (4 * (7 - i)) x) mod 16)"
    unfolding hex_word_def set_map by (rule imageE)
  from this [symmetric] show False by (rule hex_char_not_dollar [THEN notE])
qed

lemma hexdigest_no_dollar: "CHR ''$'' \<notin> set (sha256_hexdigest s)"
  unfolding sha256_hexdigest_def set_concat set_map using hex_word_no_dollar by blast

lemma split_chr_no_sep: "c \<notin> set s \<Longrightarrow> split_chr c s = [s]"
  by (induction s) auto

lemma split_chr_append: "c \<notin> set s \<Longrightarrow> split_chr c (s @ c # t) = s # split_chr c t"
  by (induction s) auto

lemma split_hash_password:
  "CHR ''$'' \<notin> set salt \<Longrightarrow>
   split_chr CHR ''$'' (hash_password salt p) = [salt, sha256_hexdigest (p @ salt)]"
  by (simp add: hash_password_def split_chr_append split_chr_no_sep hexdigest_no_dollar)

lemma token_hex_no_dollar:
  assumes "is_token_hex n s"
  shows "CHR ''$'' \<notin> set s"
proof
  assume d: "CHR ''$'' \<in> set s"
  from assms have "\<forall>c\<in>set s. c \<in> set ''0123456789abcdef''"
    unfolding is_token_hex_def list_all_iff by (rule conjunct2)
  from this d have "CHR ''$'' \<in> set ''0123456789abcdef''" by (rule bspec)
  then show False by simp
qed

lemma verify_hash_password:
  "CHR ''$'' \<notin> set salt \<Longrightarrow> verify_password p (hash_password salt p)"
  by (simp add: verify_password_def split_hash_password)

lemma hash_password_inj:
  assumes "CHR ''$'' \<notin> set s1" "CHR ''$'' \<notin> set s2" "hash_password s1 p = hash_password s2 p"
  shows "s1 = s2"
proof -
  from assms(3)
  have "split_chr CHR ''$'' (hash_password s1 p) = split_chr CHR ''$'' (hash_password s2 p)"
    by simp
  then show ?thesis
    unfolding split_hash_password [OF assms(1)] split_hash_password [OF assms(2)] by simp
qed

lemma unpack2_wrong_length: "length xs \<noteq> 2 \<Longrightarrow> unpack2 xs = Inl ValueError"
  by (cases xs rule: unpack2.cases) auto

lemma verify_password_unsplit:
  "length (split_chr CHR ''$'' encoded) \<noteq> 2 \<Longrightarrow> \<not> verify_password p encoded"
  by (simp add: verify_password_def unpack2_wrong_length)

text \<open>
  C3: with the salt drawn by \<^verbatim>\<open>secrets.token_hex(16)\<close> made an argument, a password
  verifies against its own hash for every salt, and two different salts give two
  different encoded hashes of the same password.
\<close>

theorem hash_then_verify_and_salts_differ:
  "is_token_hex 16 s \<Longrightarrow> is_token_hex 16 s1 \<Longrightarrow> is_token_hex 16 s2 \<Longrightarrow> s1 \<noteq> s2 \<Longrightarrow>
   verify_password p (hash_password s p) \<and> hash_password s1 p \<noteq> hash_password s2 p"
  by (auto dest: hash_password_inj token_hex_no_dollar intro: verify_hash_password)

theorem hash_then_verify_and_salts_differ_witness:
  "is_token_hex 16 demo_salt \<and> is_token_hex 16 other_salt \<and> demo_salt \<noteq> other_salt \<and>
   verify_password ''test123'' (hash_password demo_salt ''test123'') \<and>
   hash_password demo_salt ''test123'' \<noteq> hash_password other_salt ''test123''"
proof -
  have a: "is_token_hex 16 demo_salt" by (simp add: is_token_hex_def demo_salt_def)
  have b: "is_token_hex 16 other_salt" by (simp add: is_token_hex_def other_salt_def)
  have c: "demo_salt \<noteq> other_salt" by (simp add: demo_salt_def other_salt_def)
  from hash_then_verify_and_salts_differ [OF a a b c, of "''test123''"] a b c
  show ?thesis by blast
qed

text \<open>
  C5: a stored value that does not split into exactly two parts on \<^verbatim>\<open>$\<close> makes
  \<^verbatim>\<open>verify_password\<close> answer \<^verbatim>\<open>False\<close>; the \<^verbatim>\<open>ValueError\<close> of the unpacking does not leave
  the function.
\<close>

theorem verify_malformed_is_false:
  "length (split_chr CHR ''$'' encoded) \<noteq> 2 \<Longrightarrow> verify_password p encoded = False"
  unfolding verify_password_def by (simp add: unpack2_wrong_length)

theorem verify_malformed_is_false_witness:
  "length (split_chr CHR ''$'' ''malformed'') \<noteq> 2 \<and>
   verify_password ''test123'' ''malformed'' = False"
  using verify_malformed_is_false [of "''malformed''" "''test123''"] by simp

subsection \<open>Photo storage\<close>

lemma map_of_filter_out: "map_of (filter (\<lambda>e. fst e \<noteq> p) fs) p = None"
  by (induction fs) auto

lemma cleanup_removes: "\<not> file_exists p (cleanup p s)"
  by (simp add: cleanup_def file_exists_def unlink_def map_of_filter_out)

lemma cleanup_tables: "photos (cleanup p s) = photos s" "users (cleanup p s) = users s"
  "data_collections (cleanup p s) = data_collections s"
  by (simp_all add: cleanup_def unlink_def)

text \<open>
  C7: \<^verbatim>\<open>save_photo\<close> returns \<^verbatim>\<open>None\<close> and leaves files and tables as they were when the
  lower-cased suffix of the original file name is not in the allow-list (a name without
  suffix included) or the content is longer than \<^verbatim>\<open>MAX_FILE_SIZE\<close>.
\<close>

theorem save_photo_rejects_without_writing:
  "\<not> is_allowed_file original \<or> int (length file_content) > MAX_FILE_SIZE \<Longrightarrow>
   save_photo env s file_content original mime = (None, s)"
  unfolding save_photo_def by (elim disjE) simp_all

theorem save_photo_rejects_without_writing_witness:
  "\<not> is_allowed_file ''notes'' \<and>
   save_photo demo_env demo_store [] ''notes'' ''text/plain'' = (None, demo_store) \<and>
   is_allowed_file ''x.jpg'' \<and>
   int (length (replicate 10485761 (0 :: 8 word))) > MAX_FILE_SIZE \<and>
   save_photo demo_env demo_store (replicate 10485761 0) ''x.jpg'' ''image/jpeg''
     = (None, demo_store)"
proof -
  have a: "\<not> is_allowed_file ''notes''" by code_simp
  have a': "is_allowed_file ''x.jpg''" by code_simp
  have b: "int (length (replicate 10485761 (0 :: 8 word))) > MAX_FILE_SIZE"
    by (simp add: MAX_FILE_SIZE_def)
  from a a' b
    save_photo_rejects_without_writing [of "''notes''" "[]" demo_env demo_store "''text/plain''"]
    save_photo_rejects_without_writing
      [of "''x.jpg''" "replicate 10485761 0" demo_env demo_store "''image/jpeg''"]
  show ?thesis by blast
qed

text \<open>
  C2: once the checks have passed, every execution of \<^verbatim>\<open>save_photo\<close> in which writing the
  file or committing the row fails returns \<^verbatim>\<open>None\<close>, leaves no file under the generated
  path and leaves the photo table as it was.
\<close>

theorem save_photo_failure_leaves_no_file:
  assumes "is_allowed_file original" "int (length file_content) \<le> MAX_FILE_SIZE"
    and "write_outcome env \<noteq> Write_ok \<or> commit_fails env"
  shows "fst (save_photo env s file_content original mime) = None \<and>
         \<not> file_exists (UPLOAD_DIR @ ''/'' @ generate_unique_filename (name_clock env) (token env) original)
             (snd (save_photo env s file_content original mime)) \<and>
         photos (snd (save_photo env s file_content original mime)) = photos s"
proof (cases "write_outcome env")
  case Write_ok
  with assms have "commit_fails env" by simp
  with assms Write_ok show ?thesis
    by (simp add: save_photo_def Let_def cleanup_removes cleanup_tables write_bytes_def)
next
  case Open_failed
  with assms show ?thesis
    by (simp add: save_photo_def Let_def cleanup_removes cleanup_tables)
next
  case (Write_failed part)
  with assms show ?thesis
    by (simp add: save_photo_def Let_def cleanup_removes cleanup_tables write_bytes_def)
qed

theorem save_photo_failure_leaves_no_file_witness:
  "is_allowed_file ''x.JPG'' \<and> int (length ([1, 2, 3] :: bytes)) \<le> MAX_FILE_SIZE \<and>
   write_outcome demo_env = Write_ok \<and> commit_fails demo_env \<and>
   fst (save_photo demo_env demo_store [1, 2, 3] ''x.JPG'' ''image/jpeg'') = None \<and>
   \<not> file_exists (UPLOAD_DIR @ ''/'' @
        generate_unique_filename (name_clock demo_env) (token demo_env) ''x.JPG'')
      (snd (save_photo demo_env demo_store [1, 2, 3] ''x.JPG'' ''image/jpeg'')) \<and>
   photos (snd (save_photo demo_env demo_store [1, 2, 3] ''x.JPG'' ''image/jpeg''))
     = photos demo_store"
proof -
  have a: "is_allowed_file ''x.JPG''" by code_simp
  have b: "int (length ([1, 2, 3] :: bytes)) \<le> MAX_FILE_SIZE" by (simp add: MAX_FILE_SIZE_def)
  have c: "write_outcome demo_env = Write_ok \<and> commit_fails demo_env"
    by (simp add: demo_env_def)
  then have d: "write_outcome demo_env \<noteq> Write_ok \<or> commit_fails demo_env" by simp
  from save_photo_failure_leaves_no_file [OF a b d, of demo_store "''image/jpeg''"] a b c
  show ?thesis by blast
qed

subsection \<open>The tables\<close>

lemma fresh_id_above: "Some k \<in> set ids \<Longrightarrow> k < fresh_id ids"
  unfolding fresh_id_def by (induction ids) auto

lemma fresh_id_unused: "Some (fresh_id ids) \<notin> set ids"
  using fresh_id_above [of "fresh_id ids" ids] by auto

lemma fresh_id_unused_map: "x \<in> set xs \<Longrightarrow> f x \<noteq> Some (fresh_id (map f xs))"
  using fresh_id_unused [of "map f xs"] by (metis image_eqI set_map)

lemma find_snoc_fresh: "\<forall>x\<in>set xs. \<not> P x \<Longrightarrow> P y \<Longrightarrow> find P (xs @ [y]) = Some y"
  by (induction xs) auto

lemma find_absent: "\<forall>x\<in>set xs. \<not> P x \<Longrightarrow> find P xs = None"
  by (induction xs) auto

lemma find_present: "\<exists>x\<in>set xs. P x \<Longrightarrow> \<exists>y. find P xs = Some y"
  by (induction xs) auto

lemma find_in_set: "find P xs = Some y \<Longrightarrow> y \<in> set xs \<and> P y"
  by (induction xs) (auto split: if_splits)

lemma find_after_update:
  "\<exists>x\<in>set xs. f x = k \<Longrightarrow> f y = k \<Longrightarrow>
   find (\<lambda>r. f r = k) (map (\<lambda>r. if f r = k then y else r) xs) = Some y"
  by (induction xs) auto

lemma get_user_inserted:
  "insert_user u s = (i, s') \<Longrightarrow> get_user s' (Some i) = Some (u\<lparr>u_id := Some i\<rparr>)"
  unfolding insert_user_def get_user_def Let_def
  by (auto intro!: find_snoc_fresh dest: fresh_id_unused_map)

lemma get_collection_inserted:
  "insert_collection c s = (i, s') \<Longrightarrow> get_collection s' (Some i) = Some (c\<lparr>c_id := Some i\<rparr>)"
  unfolding insert_collection_def get_collection_def Let_def
  by (auto intro!: find_snoc_fresh dest: fresh_id_unused_map)


subsection \<open>Users\<close>

lemma demo_salt_no_dollar: "CHR ''$'' \<notin> set demo_salt"
  by (simp add: demo_salt_def)

text \<open>
  C6: when a user with the requested name is stored, \<^verbatim>\<open>create_user\<close> returns \<^verbatim>\<open>None\<close> and
  the whole state, the stored user included, is as before; when no such user is stored,
  it appends an active user with the salted hash of the password and returns that row
  with its new identity, which no stored user has.
\<close>

theorem create_user_unique_username:
  "((\<exists>u\<in>set (users s). username u = uc_username uc) \<longrightarrow>
      create_user salt now s uc = (None, s)) \<and>
   ((\<forall>u\<in>set (users s). username u \<noteq> uc_username uc) \<longrightarrow>
      Some (fresh_id (map u_id (users s))) \<notin> set (map u_id (users s)) \<and>
      create_user salt now s uc =
        (Some \<lparr>u_id = Some (fresh_id (map u_id (users s))), username = uc_username uc,
               password_hash = hash_password salt (uc_password uc),
               full_name = uc_full_name uc, email = uc_email uc,
               is_active = True, created_at = now, last_login = None\<rparr>,
         s\<lparr>users := users s @
              [\<lparr>u_id = Some (fresh_id (map u_id (users s))), username = uc_username uc,
                password_hash = hash_password salt (uc_password uc),
                full_name = uc_full_name uc, email = uc_email uc,
                is_active = True, created_at = now, last_login = None\<rparr>]\<rparr>))"
proof (intro conjI impI)
  assume "\<exists>u\<in>set (users s). username u = uc_username uc"
  then obtain y where "first_user_by_username s (uc_username uc) = Some y"
    unfolding first_user_by_username_def
    using find_present [of "users s" "\<lambda>u. username u = uc_username uc"] by blast
  then show "create_user salt now s uc = (None, s)" by (simp add: create_user_def)
next
  assume "\<forall>u\<in>set (users s). username u \<noteq> uc_username uc"
  show "Some (fresh_id (map u_id (users s))) \<notin> set (map u_id (users s))"
    by (rule fresh_id_unused)
next
  let ?u = "\<lparr>u_id = None, username = uc_username uc,
             password_hash = hash_password salt (uc_password uc),
             full_name = uc_full_name uc, email = uc_email uc,
             is_active = True, created_at = now, last_login = None\<rparr>"
  let ?i = "fresh_id (map u_id (users s))"
  assume "\<forall>u\<in>set (users s). username u \<noteq> uc_username uc"
  then have none: "first_user_by_username s (uc_username uc) = None"
    unfolding first_user_by_username_def by (auto intro: find_absent)
  have ins: "insert_user ?u s = (?i, s\<lparr>users := users s @ [?u\<lparr>u_id := Some ?i\<rparr>]\<rparr>)"
    by (simp add: insert_user_def Let_def)
  from get_user_inserted [OF ins] none ins
  show "create_user salt now s uc =
        (Some \<lparr>u_id = Some ?i, username = uc_username uc,
               password_hash = hash_password salt (uc_password uc),
               full_name = uc_full_name uc, email = uc_email uc,
               is_active = True, created_at = now, last_login = None\<rparr>,
         s\<lparr>users := users s @
              [\<lparr>u_id = Some ?i, username = uc_username uc,
                password_hash = hash_password salt (uc_password uc),
                full_name = uc_full_name uc, email = uc_email uc,
                is_active = True, created_at = now, last_login = None\<rparr>]\<rparr>)"
    by (simp add: create_user_def)
qed

theorem create_user_unique_username_witness:
  "create_user demo_salt monday_noon demo_store duplicate_signup = (None, demo_store) \<and>
   fresh_id (map u_id (users demo_store)) = 4 \<and>
   Some 4 \<notin> set (map u_id (users demo_store)) \<and>
   create_user other_salt monday_noon demo_store new_signup =
     (Some \<lparr>u_id = Some 4, username = ''fieldworker'',
            password_hash = hash_password other_salt ''field123'',
            full_name = ''Field Worker'', email = Some ''fieldworker@example.com'',
            is_active = True, created_at = monday_noon, last_login = None\<rparr>,
      demo_store\<lparr>users := users demo_store @
        [\<lparr>u_id = Some 4, username = ''fieldworker'',
          password_hash = hash_password other_salt ''field123'',
          full_name = ''Field Worker'', email = Some ''fieldworker@example.com'',
          is_active = True, created_at = monday_noon, last_login = None\<rparr>]\<rparr>)"
proof -
  have us: "users demo_store = [demo_user, retired_user, broken_user]"
    by (simp add: demo_store_def)
  have a: "\<exists>u\<in>set (users demo_store). username u = uc_username duplicate_signup"
    by (simp add: us demo_user_def duplicate_signup_def)
  have b: "\<forall>u\<in>set (users demo_store). username u \<noteq> uc_username new_signup"
    by (simp add: us demo_user_def retired_user_def broken_user_def new_signup_def)
  have f: "fresh_id (map u_id (users demo_store)) = 4"
    by (simp add: us fresh_id_def demo_user_def retired_user_def broken_user_def)
  from create_user_unique_username [of demo_store duplicate_signup demo_salt monday_noon] a
  have 1: "create_user demo_salt monday_noon demo_store duplicate_signup = (None, demo_store)"
    by blast
  from create_user_unique_username [of demo_store new_signup other_salt monday_noon] b
  have 2: "Some (fresh_id (map u_id (users demo_store))) \<notin> set (map u_id (users demo_store)) \<and>
      create_user other_salt monday_noon demo_store new_signup =
        (Some \<lparr>u_id = Some (fresh_id (map u_id (users demo_store))), username = uc_username new_signup,
               password_hash = hash_password other_salt (uc_password new_signup),
               full_name = uc_full_name new_signup, email = uc_email new_signup,
               is_active = True, created_at = monday_noon, last_login = None\<rparr>,
         demo_store\<lparr>users := users demo_store @
              [\<lparr>u_id = Some (fresh_id (map u_id (users demo_store))), username = uc_username new_signup,
                password_hash = hash_password other_salt (uc_password new_signup),
                full_name = uc_full_name new_signup, email = uc_email new_signup,
                is_active = True, created_at = monday_noon, last_login = None\<rparr>]\<rparr>)"
    by blast
  from 1 2 f show ?thesis by (simp add: new_signup_def)
qed



text \<open>
  C4: \<^verbatim>\<open>authenticate_user\<close> returns \<^verbatim>\<open>None\<close> and leaves the state as it was when no user has
  the name, when the user found is inactive, and when the password does not verify
  against the stored hash (the three results are the same value); otherwise it stores
  the clock reading \<open>now\<close> as \<^verbatim>\<open>last_login\<close> of that user, returns the row read back, whose
  identity is the stored one, and \<^verbatim>\<open>last_login\<close> is not before any time \<open>now\<close> is not before.
\<close>

theorem authenticate_user_outcomes:
  "((\<forall>u\<in>set (users s). username u \<noteq> ul_username l) \<longrightarrow> authenticate_user now s l = (None, s)) \<and>
   (first_user_by_username s (ul_username l) = Some u \<and> \<not> is_active u \<longrightarrow>
      authenticate_user now s l = (None, s)) \<and>
   (first_user_by_username s (ul_username l) = Some u \<and>
      \<not> verify_password (ul_password l) (password_hash u) \<longrightarrow>
      authenticate_user now s l = (None, s)) \<and>
   (first_user_by_username s (ul_username l) = Some u \<and> is_active u \<and>
      verify_password (ul_password l) (password_hash u) \<longrightarrow>
      authenticate_user now s l =
        (Some (u\<lparr>last_login := Some now\<rparr>),
         s\<lparr>users := map (\<lambda>r. if u_id r = u_id u then u\<lparr>last_login := Some now\<rparr> else r) (users s)\<rparr>) \<and>
      get_user (snd (authenticate_user now s l)) (u_id u) = Some (u\<lparr>last_login := Some now\<rparr>) \<and>
      u_id (u\<lparr>last_login := Some now\<rparr>) = u_id u \<and>
      (dt_ge now before \<longrightarrow>
         (\<exists>t. last_login (u\<lparr>last_login := Some now\<rparr>) = Some t \<and> dt_ge t before)))"
proof (intro conjI impI)
  assume "\<forall>u\<in>set (users s). username u \<noteq> ul_username l"
  then have "first_user_by_username s (ul_username l) = None"
    unfolding first_user_by_username_def by (auto intro: find_absent)
  then show "authenticate_user now s l = (None, s)" by (simp add: authenticate_user_def)
next
  assume "first_user_by_username s (ul_username l) = Some u \<and> \<not> is_active u"
  then show "authenticate_user now s l = (None, s)" by (simp add: authenticate_user_def)
next
  assume "first_user_by_username s (ul_username l) = Some u \<and>
      \<not> verify_password (ul_password l) (password_hash u)"
  then show "authenticate_user now s l = (None, s)" by (simp add: authenticate_user_def)
next
  assume a: "first_user_by_username s (ul_username l) = Some u \<and> is_active u \<and>
      verify_password (ul_password l) (password_hash u)"
  then have "u \<in> set (users s)"
    unfolding first_user_by_username_def by (auto dest: find_in_set)
  then have "find (\<lambda>r. u_id r = u_id u)
          (map (\<lambda>r. if u_id r = u_id u then u\<lparr>last_login := Some now\<rparr> else r) (users s))
        = Some (u\<lparr>last_login := Some now\<rparr>)"
    by (intro find_after_update) auto
  with a show r: "authenticate_user now s l =
        (Some (u\<lparr>last_login := Some now\<rparr>),
         s\<lparr>users := map (\<lambda>r. if u_id r = u_id u then u\<lparr>last_login := Some now\<rparr> else r) (users s)\<rparr>)"
    by (simp add: authenticate_user_def update_user_def get_user_def Let_def)
  from r \<open>find _ _ = _\<close>
  show "get_user (snd (authenticate_user now s l)) (u_id u) = Some (u\<lparr>last_login := Some now\<rparr>)"
    by (simp add: get_user_def)
  show "u_id (u\<lparr>last_login := Some now\<rparr>) = u_id u" by simp
next
  assume "dt_ge now before"
  then show "\<exists>t. last_login (u\<lparr>last_login := Some now\<rparr>) = Some t \<and> dt_ge t before"
    by simp
qed

theorem authenticate_user_outcomes_witness:
  "authenticate_user monday_noon demo_store ghost_login = (None, demo_store) \<and>
   authenticate_user monday_noon demo_store retired_login = (None, demo_store) \<and>
   authenticate_user monday_noon demo_store broken_login = (None, demo_store) \<and>
   first_user_by_username demo_store (ul_username demo_login) = Some demo_user \<and>
   is_active demo_user \<and>
   verify_password (ul_password demo_login) (password_hash demo_user) \<and>
   dt_ge monday_noon monday_morning \<and>
   fst (authenticate_user monday_noon demo_store demo_login)
     = Some (demo_user\<lparr>last_login := Some monday_noon\<rparr>) \<and>
   get_user (snd (authenticate_user monday_noon demo_store demo_login)) (u_id demo_user)
     = Some (demo_user\<lparr>last_login := Some monday_noon\<rparr>) \<and>
   u_id (demo_user\<lparr>last_login := Some monday_noon\<rparr>) = Some 1 \<and>
   (\<exists>t. last_login (demo_user\<lparr>last_login := Some monday_noon\<rparr>) = Some t \<and> dt_ge t monday_morning)"
proof -
  have us: "users demo_store = [demo_user, retired_user, broken_user]"
    by (simp add: demo_store_def)
  have n: "username demo_user = ''demo''" "username retired_user = ''retired''"
    "username broken_user = ''broken''"
    by (simp_all add: demo_user_def retired_user_def broken_user_def)
  have a: "\<forall>u\<in>set (users demo_store). username u \<noteq> ul_username ghost_login"
    by (simp add: us n ghost_login_def)
  have b: "first_user_by_username demo_store (ul_username retired_login) = Some retired_user \<and>
      \<not> is_active retired_user"
    by (simp add: first_user_by_username_def us n retired_login_def) (simp add: retired_user_def)
  have "password_hash broken_user = ''malformed''" by (simp add: broken_user_def)
  then have "\<not> verify_password (ul_password broken_login) (password_hash broken_user)"
    by (simp add: verify_password_unsplit)
  then have c: "first_user_by_username demo_store (ul_username broken_login) = Some broken_user \<and>
      \<not> verify_password (ul_password broken_login) (password_hash broken_user)"
    by (simp add: first_user_by_username_def us n broken_login_def)
  have "password_hash demo_user = hash_password demo_salt (ul_password demo_login)"
    by (simp add: demo_user_def demo_login_def)
  then have v: "verify_password (ul_password demo_login) (password_hash demo_user)"
    by (simp add: verify_hash_password demo_salt_no_dollar)
  have f: "first_user_by_username demo_store (ul_username demo_login) = Some demo_user"
    by (simp add: first_user_by_username_def us n demo_login_def)
  have act: "is_active demo_user" by (simp add: demo_user_def)
  from f act v
  have d: "first_user_by_username demo_store (ul_username demo_login) = Some demo_user \<and>
      is_active demo_user \<and> verify_password (ul_password demo_login) (password_hash demo_user)"
    by simp
  have e: "dt_ge monday_noon monday_morning" by code_simp
  have i: "u_id demo_user = Some 1" by (simp add: demo_user_def)
  note t1 = authenticate_user_outcomes [of demo_store ghost_login monday_noon]
  note t2 = authenticate_user_outcomes [of demo_store retired_login monday_noon retired_user]
  note t3 = authenticate_user_outcomes [of demo_store broken_login monday_noon broken_user]
  note t4 = authenticate_user_outcomes [of demo_store demo_login monday_noon demo_user monday_morning]
  from t1 [THEN conjunct1, THEN mp, OF a]
  have 1: "authenticate_user monday_noon demo_store ghost_login = (None, demo_store)" .
  from t2 [THEN conjunct2, THEN conjunct1, THEN mp, OF b]
  have 2: "authenticate_user monday_noon demo_store retired_login = (None, demo_store)" .
  from t3 [THEN conjunct2, THEN conjunct2, THEN conjunct1, THEN mp, OF c]
  have 3: "authenticate_user monday_noon demo_store broken_login = (None, demo_store)" .
  note r = t4 [THEN conjunct2, THEN conjunct2, THEN conjunct2, THEN mp, OF d]
  from r [THEN conjunct1]
  have 4: "fst (authenticate_user monday_noon demo_store demo_login)
     = Some (demo_user\<lparr>last_login := Some monday_noon\<rparr>)" by simp
  note 5 = r [THEN conjunct2, THEN conjunct1]
  from i have 6: "u_id (demo_user\<lparr>last_login := Some monday_noon\<rparr>) = Some 1" by simp
  note 7 = r [THEN conjunct2, THEN conjunct2, THEN conjunct2, THEN mp, OF e]
  from 1 2 3 f act v e 4 5 6 7 show ?thesis by (intro conjI)
qed


subsection \<open>Collections\<close>

text \<open>
  C8: \<^verbatim>\<open>create_collection\<close> returns \<^verbatim>\<open>None\<close> and leaves the state as it was when no user
  has the given identity, and when a photo identity is given that no photo has;
  otherwise it appends a row with \<^verbatim>\<open>is_synchronized = False\<close> and \<^verbatim>\<open>submission_date = now\<close> and
  returns it with its new identity.
\<close>

theorem create_collection_checks_references:
  "((\<forall>u\<in>set (users s). u_id u \<noteq> Some uid) \<longrightarrow> create_collection now s uid cc = (None, s)) \<and>
   (cc_photo_id cc = Some pid \<and> (\<forall>p\<in>set (photos s). p_id p \<noteq> Some pid) \<longrightarrow>
      create_collection now s uid cc = (None, s)) \<and>
   ((\<exists>u\<in>set (users s). u_id u = Some uid) \<and>
    (cc_photo_id cc = None \<or> (\<exists>p\<in>set (photos s). p_id p = cc_photo_id cc)) \<longrightarrow>
      Some (fresh_id (map c_id (data_collections s))) \<notin> set (map c_id (data_collections s)) \<and>
      create_collection now s uid cc =
        (Some \<lparr>c_id = Some (fresh_id (map c_id (data_collections s))),
               customer_name = cc_customer_name cc, description = cc_description cc,
               submission_date = now, user_id = uid, photo_id = cc_photo_id cc,
               location_data = cc_location_data cc, device_info = cc_device_info cc,
               is_synchronized = False, sync_error = None\<rparr>,
         s\<lparr>data_collections := data_collections s @
              [\<lparr>c_id = Some (fresh_id (map c_id (data_collections s))),
               customer_name = cc_customer_name cc, description = cc_description cc,
               submission_date = now, user_id = uid, photo_id = cc_photo_id cc,
               location_data = cc_location_data cc, device_info = cc_device_info cc,
               is_synchronized = False, sync_error = None\<rparr>]\<rparr>))"
proof (intro conjI impI)
  assume "\<forall>u\<in>set (users s). u_id u \<noteq> Some uid"
  then have "get_user s (Some uid) = None"
    unfolding get_user_def by (auto intro: find_absent)
  then show "create_collection now s uid cc = (None, s)" by (simp add: create_collection_def)
next
  assume "cc_photo_id cc = Some pid \<and> (\<forall>p\<in>set (photos s). p_id p \<noteq> Some pid)"
  then have "cc_photo_id cc \<noteq> None \<and> get_photo s (cc_photo_id cc) = None"
    unfolding get_photo_def by (auto intro: find_absent)
  then show "create_collection now s uid cc = (None, s)"
    by (simp add: create_collection_def split: option.split)
next
  assume "(\<exists>u\<in>set (users s). u_id u = Some uid) \<and>
    (cc_photo_id cc = None \<or> (\<exists>p\<in>set (photos s). p_id p = cc_photo_id cc))"
  show "Some (fresh_id (map c_id (data_collections s))) \<notin> set (map c_id (data_collections s))"
    by (rule fresh_id_unused)
next
  let ?c = "\<lparr>c_id = None, customer_name = cc_customer_name cc,
                      description = cc_description cc, submission_date = now,
                      user_id = uid, photo_id = cc_photo_id cc,
                      location_data = cc_location_data cc, device_info = cc_device_info cc,
                      is_synchronized = False, sync_error = None\<rparr>"
  let ?i = "fresh_id (map c_id (data_collections s))"
  assume a: "(\<exists>u\<in>set (users s). u_id u = Some uid) \<and>
    (cc_photo_id cc = None \<or> (\<exists>p\<in>set (photos s). p_id p = cc_photo_id cc))"
  then obtain u where u: "get_user s (Some uid) = Some u"
    unfolding get_user_def using find_present [of "users s" "\<lambda>u. u_id u = Some uid"] by auto
  from a have p: "\<not> (cc_photo_id cc \<noteq> None \<and> get_photo s (cc_photo_id cc) = None)"
    unfolding get_photo_def
    using find_present [of "photos s" "\<lambda>p. p_id p = cc_photo_id cc"] by auto
  have ins: "insert_collection ?c s =
      (?i, s\<lparr>data_collections := data_collections s @ [?c\<lparr>c_id := Some ?i\<rparr>]\<rparr>)"
    by (simp add: insert_collection_def Let_def)
  from get_collection_inserted [OF ins] u p ins
  show "create_collection now s uid cc =
        (Some \<lparr>c_id = Some ?i,
               customer_name = cc_customer_name cc, description = cc_description cc,
               submission_date = now, user_id = uid, photo_id = cc_photo_id cc,
               location_data = cc_location_data cc, device_info = cc_device_info cc,
               is_synchronized = False, sync_error = None\<rparr>,
         s\<lparr>data_collections := data_collections s @
              [\<lparr>c_id = Some ?i,
               customer_name = cc_customer_name cc, description = cc_description cc,
               submission_date = now, user_id = uid, photo_id = cc_photo_id cc,
               location_data = cc_location_data cc, device_info = cc_device_info cc,
               is_synchronized = False, sync_error = None\<rparr>]\<rparr>)"
    by (simp add: create_collection_def)
qed

theorem create_collection_checks_references_witness:
  "create_collection monday_noon demo_store 99999 plain_visit = (None, demo_store) \<and>
   create_collection monday_noon demo_store 1 lost_photo_visit = (None, demo_store) \<and>
   fresh_id (map c_id (data_collections demo_store)) = 4 \<and>
   Some 4 \<notin> set (map c_id (data_collections demo_store)) \<and>
   create_collection monday_noon demo_store 1 plain_visit =
     (Some \<lparr>c_id = Some 4, customer_name = ''John Doe'', description = ''Test customer visit'',
            submission_date = monday_noon, user_id = 1, photo_id = None,
            location_data = None, device_info = None,
            is_synchronized = False, sync_error = None\<rparr>,
      demo_store\<lparr>data_collections := data_collections demo_store @
        [\<lparr>c_id = Some 4, customer_name = ''John Doe'', description = ''Test customer visit'',
          submission_date = monday_noon, user_id = 1, photo_id = None,
          location_data = None, device_info = None,
          is_synchronized = False, sync_error = None\<rparr>]\<rparr>)"
proof -
  have us: "users demo_store = [demo_user, retired_user, broken_user]"
    and ps: "photos demo_store = [demo_photo]"
    and cs: "data_collections demo_store = [friday_visit, colleague_visit, morning_visit]"
    by (simp_all add: demo_store_def)
  have ids: "u_id demo_user = Some 1" "u_id retired_user = Some 2" "u_id broken_user = Some 3"
    "p_id demo_photo = Some 1"
    "c_id friday_visit = Some 2" "c_id colleague_visit = Some 3" "c_id morning_visit = Some 1"
    by (simp_all add: demo_user_def retired_user_def broken_user_def demo_photo_def
        friday_visit_def colleague_visit_def morning_visit_def)
  have a: "\<forall>u\<in>set (users demo_store). u_id u \<noteq> Some 99999" by (simp add: us ids)
  have b: "cc_photo_id lost_photo_visit = Some 99999 \<and>
      (\<forall>p\<in>set (photos demo_store). p_id p \<noteq> Some 99999)"
    by (simp add: ps ids lost_photo_visit_def)
  have c: "(\<exists>u\<in>set (users demo_store). u_id u = Some 1) \<and>
      (cc_photo_id plain_visit = None \<or>
       (\<exists>p\<in>set (photos demo_store). p_id p = cc_photo_id plain_visit))"
    by (simp add: us ids plain_visit_def)
  have f: "fresh_id (map c_id (data_collections demo_store)) = 4"
    by (simp add: cs ids fresh_id_def)
  note t1 = create_collection_checks_references [of demo_store 99999 monday_noon plain_visit]
  note t2 = create_collection_checks_references [of demo_store 1 monday_noon lost_photo_visit 99999]
  note t3 = create_collection_checks_references [of demo_store 1 monday_noon plain_visit]
  note 1 = t1 [THEN conjunct1, THEN mp, OF a]
  note 2 = t2 [THEN conjunct2, THEN conjunct1, THEN mp, OF b]
  note 3 = t3 [THEN conjunct2, THEN conjunct2, THEN mp, OF c]
  from 1 2 3 f show ?thesis by (simp add: plain_visit_def)
qed


lemma dt_ge_trans: "dt_ge a b \<Longrightarrow> dt_ge b c \<Longrightarrow> dt_ge a c"
  unfolding dt_ge_def by (rule order_trans)

lemma dt_gt_imp_ge: "dt_gt a b \<Longrightarrow> dt_ge a b"
  unfolding dt_ge_def dt_gt_def by (rule less_imp_le)

lemma not_dt_gt_imp_ge: "\<not> dt_gt a b \<Longrightarrow> dt_ge b a"
  unfolding dt_ge_def dt_gt_def by (rule leI)

lemma set_insert_desc: "set (insert_desc c xs) = insert c (set xs)"
  by (induction xs) auto

lemma length_insert_desc: "length (insert_desc c xs) = Suc (length xs)"
  by (induction xs) auto

lemma sorted_insert_desc:
  "sorted_wrt (\<lambda>a b. dt_ge (submission_date a) (submission_date b)) xs \<Longrightarrow>
   sorted_wrt (\<lambda>a b. dt_ge (submission_date a) (submission_date b)) (insert_desc c xs)"
proof (induction xs)
  case Nil
  then show ?case by simp
next
  case (Cons x xs)
  show ?case
  proof (cases "dt_gt (submission_date c) (submission_date x)")
    case True
    then have cx: "dt_ge (submission_date c) (submission_date x)" by (rule dt_gt_imp_ge)
    have "\<forall>y\<in>set xs. dt_ge (submission_date c) (submission_date y)"
    proof
      fix y assume "y \<in> set xs"
      with Cons.prems have "dt_ge (submission_date x) (submission_date y)" by simp
      with cx show "dt_ge (submission_date c) (submission_date y)" by (rule dt_ge_trans)
    qed
    with True cx Cons.prems show ?thesis by simp
  next
    case False
    then have "dt_ge (submission_date x) (submission_date c)" by (rule not_dt_gt_imp_ge)
    with False Cons show ?thesis by (simp add: set_insert_desc)
  qed
qed

lemma foldl_insert_desc:
  "sorted_wrt (\<lambda>a b. dt_ge (submission_date a) (submission_date b)) acc \<Longrightarrow>
   sorted_wrt (\<lambda>a b. dt_ge (submission_date a) (submission_date b))
     (foldl (\<lambda>acc c. insert_desc c acc) acc cs) \<and>
   set (foldl (\<lambda>acc c. insert_desc c acc) acc cs) = set acc \<union> set cs \<and>
   length (foldl (\<lambda>acc c. insert_desc c acc) acc cs) = length acc + length cs"
proof (induction cs arbitrary: acc)
  case Nil
  then show ?case by simp
next
  case (Cons c cs)
  from Cons.prems have "sorted_wrt (\<lambda>a b. dt_ge (submission_date a) (submission_date b))
      (insert_desc c acc)" by (rule sorted_insert_desc)
  from Cons.IH [OF this] show ?case
    by (simp add: set_insert_desc length_insert_desc)
qed

lemma order_by_desc_props:
  "sorted_wrt (\<lambda>a b. dt_ge (submission_date a) (submission_date b)) (order_by_desc cs)"
  "set (order_by_desc cs) = set cs"
  "length (order_by_desc cs) = length cs"
  unfolding order_by_desc_def using foldl_insert_desc [of "[]" cs] by simp_all

lemma sorted_wrt_take_any: "sorted_wrt R xs \<Longrightarrow> sorted_wrt R (take n xs)"
  by (induction xs arbitrary: n) (auto simp: take_Cons split: nat.split dest: in_set_takeD)


text \<open>
  C9 as stated, for every limit, fails at \<open>limit = -1\<close>: for the first user of the example
  state SQLite returns both of the user's rows, and two is not at most \<open>-1\<close>; PostgreSQL
  returns no sequence at all.
\<close>

theorem collections_by_user_negative_limit:
  "get_collections_by_user SQLite demo_store 1 (- 1) = Inr [morning_visit, friday_visit] \<and>
   \<not> int (length [morning_visit, friday_visit]) \<le> - 1 \<and>
   get_collections_by_user PostgreSQL demo_store 1 (- 1) = Inl DataError"
proof -
  have cs: "data_collections demo_store = [friday_visit, colleague_visit, morning_visit]"
    by (simp add: demo_store_def)
  have f: "user_id friday_visit = 1" "user_id colleague_visit = 3" "user_id morning_visit = 1"
    "submission_date friday_visit = friday_evening" "submission_date morning_visit = monday_morning"
    by (simp_all add: friday_visit_def colleague_visit_def morning_visit_def)
  have g: "dt_gt monday_morning friday_evening" by code_simp
  have o: "order_by_desc (filter (\<lambda>c. user_id c = 1) (data_collections demo_store))
      = [morning_visit, friday_visit]"
    by (simp add: order_by_desc_def cs f g)
  show ?thesis
    unfolding get_collections_by_user_def o by (simp add: sql_limit_def)
qed

text \<open>
  C9, amended: for every limit that is not negative, and on either engine,
  \<^verbatim>\<open>get_collections_by_user\<close> returns a sequence of stored rows of the given user only, in
  descending order of \<^verbatim>\<open>submission_date\<close>, at most \<open>limit\<close> of them, and as many as the
  user has when that is fewer.
\<close>

theorem collections_by_user_sorted_and_bounded:
  "0 \<le> limit \<Longrightarrow>
   \<exists>rows. get_collections_by_user e s uid limit = Inr rows \<and>
     (\<forall>c\<in>set rows. user_id c = uid \<and> c \<in> set (data_collections s)) \<and>
     sorted_wrt (\<lambda>a b. dt_ge (submission_date a) (submission_date b)) rows \<and>
     int (length rows) \<le> limit \<and>
     length rows = min (nat limit) (length (filter (\<lambda>c. user_id c = uid) (data_collections s)))"
proof -
  assume l: "0 \<le> limit"
  let ?all = "order_by_desc (filter (\<lambda>c. user_id c = uid) (data_collections s))"
  let ?rows = "take (nat limit) ?all"
  from l have r: "get_collections_by_user e s uid limit = Inr ?rows"
    by (simp add: get_collections_by_user_def sql_limit_def)
  have m: "\<forall>c\<in>set ?rows. user_id c = uid \<and> c \<in> set (data_collections s)"
  proof
    fix c assume "c \<in> set ?rows"
    then have "c \<in> set ?all" by (rule in_set_takeD)
    then have "c \<in> set (filter (\<lambda>c. user_id c = uid) (data_collections s))"
      by (simp only: order_by_desc_props)
    then show "user_id c = uid \<and> c \<in> set (data_collections s)" by simp
  qed
  have srt: "sorted_wrt (\<lambda>a b. dt_ge (submission_date a) (submission_date b)) ?rows"
    by (intro sorted_wrt_take_any order_by_desc_props)
  from l have b: "int (length ?rows) \<le> limit" by simp
  have n: "length ?rows
      = min (nat limit) (length (filter (\<lambda>c. user_id c = uid) (data_collections s)))"
    by (simp add: order_by_desc_props min.commute)
  from r m srt b n show ?thesis by blast
qed

theorem collections_by_user_sorted_and_bounded_witness:
  "(0::int) \<le> 5 \<and>
   (\<exists>rows. get_collections_by_user SQLite demo_store 1 5 = Inr rows \<and>
      list_all (\<lambda>c. user_id c = 1 \<and> c \<in> set (data_collections demo_store)) rows \<and>
      sorted_wrt (\<lambda>a b. dt_ge (submission_date a) (submission_date b)) rows \<and>
      int (length rows) \<le> 5 \<and> length rows = 2) \<and>
   (\<exists>rows. get_collections_by_user PostgreSQL demo_store 1 1 = Inr rows \<and>
      list_all (\<lambda>c. user_id c = 1 \<and> c \<in> set (data_collections demo_store)) rows \<and>
      sorted_wrt (\<lambda>a b. dt_ge (submission_date a) (submission_date b)) rows \<and>
      int (length rows) \<le> 1 \<and> length rows = 1)"
proof -
  have cs: "data_collections demo_store = [friday_visit, colleague_visit, morning_visit]"
    by (simp add: demo_store_def)
  have ids: "user_id friday_visit = 1" "user_id colleague_visit = 3" "user_id morning_visit = 1"
    by (simp_all add: friday_visit_def colleague_visit_def morning_visit_def)
  have n: "length (filter (\<lambda>c. user_id c = 1) (data_collections demo_store)) = 2"
    by (simp add: cs ids)
  have z: "(0::int) \<le> 5" "(0::int) \<le> 1" by simp_all
  from collections_by_user_sorted_and_bounded [OF z(1), of SQLite demo_store 1]
  obtain rows where "get_collections_by_user SQLite demo_store 1 5 = Inr rows"
    "\<forall>c\<in>set rows. user_id c = 1 \<and> c \<in> set (data_collections demo_store)"
    "sorted_wrt (\<lambda>a b. dt_ge (submission_date a) (submission_date b)) rows"
    "int (length rows) \<le> 5"
    "length rows = min (nat 5) (length (filter (\<lambda>c. user_id c = 1) (data_collections demo_store)))"
    by blast
  with n have 1: "\<exists>rows. get_collections_by_user SQLite demo_store 1 5 = Inr rows \<and>
      list_all (\<lambda>c. user_id c = 1 \<and> c \<in> set (data_collections demo_store)) rows \<and>
      sorted_wrt (\<lambda>a b. dt_ge (submission_date a) (submission_date b)) rows \<and>
      int (length rows) \<le> 5 \<and> length rows = 2"
    by (simp add: list_all_iff)
  from collections_by_user_sorted_and_bounded [OF z(2), of PostgreSQL demo_store 1]
  obtain rows' where "get_collections_by_user PostgreSQL demo_store 1 1 = Inr rows'"
    "\<forall>c\<in>set rows'. user_id c = 1 \<and> c \<in> set (data_collections demo_store)"
    "sorted_wrt (\<lambda>a b. dt_ge (submission_date a) (submission_date b)) rows'"
    "int (length rows') \<le> 1"
    "length rows' = min (nat 1) (length (filter (\<lambda>c. user_id c = 1) (data_collections demo_store)))"
    by blast
  with n have 2: "\<exists>rows. get_collections_by_user PostgreSQL demo_store 1 1 = Inr rows \<and>
      list_all (\<lambda>c. user_id c = 1 \<and> c \<in> set (data_collections demo_store)) rows \<and>
      sorted_wrt (\<lambda>a b. dt_ge (submission_date a) (submission_date b)) rows \<and>
      int (length rows) \<le> 1 \<and> length rows = 1"
    by (simp add: list_all_iff)
  from z(1) 1 2 show ?thesis by (intro conjI)
qed

subsection \<open>The calendar and the dashboard\<close>



lemma month_disj:
  "1 \<le> m \<Longrightarrow> m \<le> (12::int) \<Longrightarrow>
   m = 1 \<or> m = 2 \<or> m = 3 \<or> m = 4 \<or> m = 5 \<or> m = 6 \<or>
   m = 7 \<or> m = 8 \<or> m = 9 \<or> m = 10 \<or> m = 11 \<or> m = 12"
  by arith

lemma days_before_month_bounds:
  assumes "1 \<le> m" "m \<le> 12"
  shows "0 \<le> days_before_month y m"
    and "days_before_month y m + days_in_month y m \<le> (if is_leap y then 366 else 365)"
  using month_disj [OF assms]
  by (elim disjE;
      simp add: days_before_month_def days_in_month_def DAYS_BEFORE_MONTH_def DAYS_IN_MONTH_def)+

lemma days_before_year_bounds:
  assumes "1 \<le> y" "y \<le> 9999"
  shows "0 \<le> days_before_year y" and "y \<le> 9998 \<Longrightarrow> days_before_year y \<le> 3651693"
proof -
  define z where "z = y - 1"
  have s: "z = 4 * (z div 4) + z mod 4" "z = 100 * (z div 100) + z mod 100"
    "z = 400 * (z div 400) + z mod 400" by simp_all
  have m: "0 \<le> z mod 4" "z mod 4 < 4" "0 \<le> z mod 100" "z mod 100 < 100"
    "0 \<le> z mod 400" "z mod 400 < 400" by simp_all
  from assms have z: "0 \<le> z" by (simp add: z_def)
  then have "z div 100 \<le> z div 4" by (intro zdiv_mono2) simp_all
  moreover from z have "0 \<le> z div 400" by simp
  ultimately show "0 \<le> days_before_year y"
    using z by (simp add: days_before_year_def z_def [symmetric])
  assume "y \<le> 9998"
  then have "z \<le> 9997" by (simp add: z_def)
  with s m show "days_before_year y \<le> 3651693"
    unfolding days_before_year_def Let_def z_def [symmetric] by linarith
qed

lemma days_before_year_9999: "days_before_year 9999 = 3651694"
  by (simp add: days_before_year_def)

lemma not_leap_9999: "\<not> is_leap 9999"
  by (simp add: is_leap_def)

lemma ymd2ord_bounds:
  assumes "check_date_fields y m d"
  shows "1 \<le> ymd2ord y m d" and "ymd2ord y m d \<le> MAXORDINAL"
proof -
  from assms have r: "1 \<le> y" "y \<le> 9999" "1 \<le> m" "m \<le> 12" "1 \<le> d" "d \<le> days_in_month y m"
    by (simp_all add: check_date_fields_def MINYEAR_def MAXYEAR_def)
  note a = days_before_month_bounds [OF r(3,4), of y] days_before_year_bounds [OF r(1,2)]
  from a r show "1 \<le> ymd2ord y m d" by (simp add: ymd2ord_def)
  show "ymd2ord y m d \<le> MAXORDINAL"
  proof (cases "y = 9999")
    case True
    with a(2) r(6) not_leap_9999 days_before_year_9999 show ?thesis
      by (simp add: ymd2ord_def MAXORDINAL_def)
  next
    case False
    with r have "y \<le> 9998" by simp
    from a(4) [OF this] a(2) r(6) show ?thesis
      by (simp add: ymd2ord_def MAXORDINAL_def split: if_splits)
  qed
qed

lemma today_start_valid:
  "valid_datetime now \<Longrightarrow>
   today_start now = Inr \<lparr>year = year now, month = month now, day = day now,
                          hour = 0, minute = 0, second = 0, microsecond = 0\<rparr>"
  by (simp add: today_start_def datetime_new_def valid_datetime_def)

lemma month_start_valid:
  "valid_datetime now \<Longrightarrow>
   month_start now = Inr \<lparr>year = year now, month = month now, day = 1,
                          hour = 0, minute = 0, second = 0, microsecond = 0\<rparr>"
  by (auto simp: month_start_def datetime_new_def valid_datetime_def check_date_fields_def)

lemma weekday_bounds:
  assumes "1 \<le> toordinal now"
  shows "0 \<le> weekday now" "weekday now \<le> 6" "0 < toordinal now - weekday now"
    "toordinal now - weekday now \<le> toordinal now"
proof -
  have e: "toordinal now + 6 = (toordinal now - 1) + 7" by simp
  have "(toordinal now + 6) mod 7 = (toordinal now - 1) mod 7"
    unfolding e by (rule mod_add_self2)
  moreover have "(toordinal now - 1) mod 7 \<le> toordinal now - 1"
    using assms by (intro zmod_le_nonneg_dividend) simp
  moreover have "0 \<le> (toordinal now + 6) mod 7" "(toordinal now + 6) mod 7 < 7" by simp_all
  ultimately show "0 \<le> weekday now" "weekday now \<le> 6" "0 < toordinal now - weekday now"
    "toordinal now - weekday now \<le> toordinal now"
    unfolding weekday_def by linarith+
qed

lemma time_of_day_rebuilt:
  fixes h m s :: int
  assumes "0 \<le> m" "m \<le> 59" "0 \<le> s" "s \<le> 59"
  shows "(h * 3600 + m * 60 + s) div 3600 = h"
    and "(h * 3600 + m * 60 + s) mod 3600 div 60 = m"
    and "(h * 3600 + m * 60 + s) mod 3600 mod 60 = s"
proof -
  define r where "r = m * 60 + s"
  have r: "0 \<le> r" "r < 3600" using assms unfolding r_def by linarith+
  have a: "h * 3600 + m * 60 + s = r + h * 3600" by (simp add: r_def)
  have d: "(r + h * 3600) div 3600 = h"
    using r by (simp add: div_pos_pos_trivial)
  have md: "(r + h * 3600) mod 3600 = r"
    using r by (simp add: mod_pos_pos_trivial)
  have s60: "0 \<le> s" "s < 60" using assms by linarith+
  have q: "r div 60 = m" unfolding r_def
    using s60 by (simp add: div_pos_pos_trivial)
  have q': "r mod 60 = s" unfolding r_def
    using s60 by (simp add: mod_pos_pos_trivial)
  show "(h * 3600 + m * 60 + s) div 3600 = h" unfolding a by (rule d)
  show "(h * 3600 + m * 60 + s) mod 3600 div 60 = m" unfolding a md by (rule q)
  show "(h * 3600 + m * 60 + s) mod 3600 mod 60 = s" unfolding a md by (rule q')
qed

lemma sub_days_in_range:
  assumes "0 < toordinal t - k" "toordinal t - k \<le> MAXORDINAL"
    and "0 \<le> minute t" "minute t \<le> 59" "0 \<le> second t" "second t \<le> 59"
  shows "\<exists>w. sub_days t k = Inr w \<and> hour w = hour t \<and> minute w = minute t \<and>
             second w = second t \<and> microsecond w = microsecond t"
proof -
  obtain y m d where e: "ord2ymd (toordinal t - k) = (y, m, d)"
    by (cases "ord2ymd (toordinal t - k)") auto
  note h = time_of_day_rebuilt [OF assms(3-6), of "hour t"]
  have "sub_days t k = Inr \<lparr>year = y, month = m, day = d, hour = hour t, minute = minute t,
      second = second t, microsecond = microsecond t\<rparr>"
    unfolding sub_days_def Let_def h e using assms(1,2) by simp
  then show ?thesis by simp
qed

lemma week_start_valid:
  assumes "valid_datetime now"
  shows "\<exists>w. week_start now = Inr w \<and> hour w = hour now \<and> minute w = minute now \<and>
             second w = second now \<and> microsecond w = microsecond now"
proof -
  from assms have d: "check_date_fields (year now) (month now) (day now)"
    and t: "0 \<le> minute now" "minute now \<le> 59" "0 \<le> second now" "second now \<le> 59"
    by (simp_all add: valid_datetime_def check_time_fields_def)
  from ymd2ord_bounds [OF d] have o: "1 \<le> toordinal now" "toordinal now \<le> MAXORDINAL"
    by (simp_all add: toordinal_def)
  from weekday_bounds [OF o(1)] o(2)
  have "0 < toordinal now - weekday now" "toordinal now - weekday now \<le> MAXORDINAL"
    by linarith+
  then show ?thesis unfolding week_start_def using t by (rule sub_days_in_range)
qed

lemma length_filter_mono:
  "(\<And>x. P x \<Longrightarrow> Q x) \<Longrightarrow> length (filter P xs) \<le> length (filter Q xs)"
  by (induction xs) auto

lemma month_start_le_today_start:
  "1 \<le> day now \<Longrightarrow>
   dt_ge \<lparr>year = year now, month = month now, day = day now,
          hour = 0, minute = 0, second = 0, microsecond = 0\<rparr>
         \<lparr>year = year now, month = month now, day = 1,
          hour = 0, minute = 0, second = 0, microsecond = 0\<rparr>"
  by (simp add: dt_ge_def dt_key_def less_eq_prod_def)


lemma valid_monday_noon: "valid_datetime monday_noon"
  by code_simp

text \<open>
  C10: for every valid clock reading \<^verbatim>\<open>get_dashboard_stats\<close> returns statistics, and in them
  \<^verbatim>\<open>collections_today \<le> collections_this_month \<le> total_collections\<close> and
  \<^verbatim>\<open>pending_sync \<le> total_collections\<close>.
\<close>

theorem dashboard_stats_inequalities:
  assumes "valid_datetime now"
  shows "\<exists>st. get_dashboard_stats now s uid = Inr st \<and>
           collections_today st \<le> collections_this_month st \<and>
           collections_this_month st \<le> total_collections st \<and>
           pending_sync st \<le> total_collections st"
proof -
  from assms have d: "1 \<le> day now" by (simp add: valid_datetime_def check_date_fields_def)
  obtain w where w: "week_start now = Inr w" using week_start_valid [OF assms] by blast
  have "\<And>c. dt_ge (submission_date c) \<lparr>year = year now, month = month now, day = day now,
          hour = 0, minute = 0, second = 0, microsecond = 0\<rparr> \<Longrightarrow>
        dt_ge (submission_date c) \<lparr>year = year now, month = month now, day = 1,
          hour = 0, minute = 0, second = 0, microsecond = 0\<rparr>"
    using month_start_le_today_start [OF d] by (rule dt_ge_trans [rotated])
  then have "length (filter (\<lambda>c. dt_ge (submission_date c) \<lparr>year = year now, month = month now, day = day now,
          hour = 0, minute = 0, second = 0, microsecond = 0\<rparr>) (filter (\<lambda>c. user_id c = uid) (data_collections s)))
    \<le> length (filter (\<lambda>c. dt_ge (submission_date c) \<lparr>year = year now, month = month now, day = 1,
          hour = 0, minute = 0, second = 0, microsecond = 0\<rparr>) (filter (\<lambda>c. user_id c = uid) (data_collections s)))"
    by (rule length_filter_mono)
  with w today_start_valid [OF assms] month_start_valid [OF assms] show ?thesis
    by (simp add: get_dashboard_stats_def Let_def del: filter_filter)
qed

theorem dashboard_stats_inequalities_witness:
  "valid_datetime monday_noon \<and>
   (\<exists>st. get_dashboard_stats monday_noon demo_store 1 = Inr st \<and>
      collections_today st \<le> collections_this_month st \<and>
      collections_this_month st \<le> total_collections st \<and>
      pending_sync st \<le> total_collections st)"
  using dashboard_stats_inequalities [OF valid_monday_noon, of demo_store 1] valid_monday_noon
  by (intro conjI)


text \<open>
  C1, at a failing input.  On Monday 8 January 2024 at noon the source's week start is
  that same noon, not the Monday midnight of the specification, so the visit recorded at
  eight o'clock that morning counts for today and for the month but not for the week:
  \<^verbatim>\<open>collections_this_week\<close> is 0 where the claim gives 1.  The other five values are as the
  claim says.
\<close>

theorem dashboard_week_window_starts_at_clock_time:
  "weekday monday_noon = 0 \<and>
   week_start monday_noon = Inr monday_noon \<and>
   spec_week_start monday_noon = Inr monday_midnight \<and>
   dt_ge monday_morning monday_midnight \<and>
   get_dashboard_stats monday_noon demo_store 1 =
     Inr \<lparr>total_collections = 2, collections_today = 1, collections_this_week = 0,
          collections_this_month = 2, pending_sync = 1,
          last_submission = Some ''2024-01-08T08:00:00''\<rparr>"
proof -
  have w: "weekday monday_noon = 0" "week_start monday_noon = Inr monday_noon"
    and sw: "spec_week_start monday_noon = Inr monday_midnight"
    and t: "today_start monday_noon = Inr monday_midnight"
    and m: "month_start monday_noon = Inr january_first"
    by code_simp+
  have cmp: "dt_ge monday_morning monday_midnight" "\<not> dt_ge monday_morning monday_noon"
    "dt_ge monday_morning january_first" "\<not> dt_ge friday_evening monday_midnight"
    "\<not> dt_ge friday_evening monday_noon" "dt_ge friday_evening january_first"
    "dt_gt monday_morning friday_evening"
    by code_simp+
  have iso: "isoformat monday_morning = ''2024-01-08T08:00:00''" by code_simp
  have cs: "data_collections demo_store = [friday_visit, colleague_visit, morning_visit]"
    by (simp add: demo_store_def)
  have f: "user_id friday_visit = 1" "user_id colleague_visit = 3" "user_id morning_visit = 1"
    "submission_date friday_visit = friday_evening" "submission_date morning_visit = monday_morning"
    "is_synchronized friday_visit" "\<not> is_synchronized morning_visit"
    by (simp_all add: friday_visit_def colleague_visit_def morning_visit_def)
  have "get_dashboard_stats monday_noon demo_store 1 =
     Inr \<lparr>total_collections = 2, collections_today = 1, collections_this_week = 0,
          collections_this_month = 2, pending_sync = 1,
          last_submission = Some ''2024-01-08T08:00:00''\<rparr>"
    by (simp add: get_dashboard_stats_def Let_def w t m cs f cmp iso max_by_date_def)
  with w sw cmp(1) show ?thesis by (intro conjI)
qed

end
